theory Spec2Isabelle
  imports Complex_Main "HOL-Library.Sublist"
begin

section \<open>Exceptions as values\<close>

text \<open>
  The notebooks are Python 3. An exception that a function of the notebooks lets escape
  is the left summand of its result; the right summand is the value it returns.
\<close>

datatype py_error = ZeroDivisionError | OverflowError | IndexError | ValueError | TypeError

text \<open>\<^verbatim>\<open>range(n)\<close>: the integers \<open>0, 1, ..., n - 1\<close>, none when \<open>n \<le> 0\<close>.\<close>

definition py_range :: "int \<Rightarrow> int list" where
  "py_range n = map int [0..<nat n]"

text \<open>Sequencing of statements that may raise, and a \<^verbatim>\<open>for\<close> loop over a list.\<close>

definition bind_err :: "py_error + 'a \<Rightarrow> ('a \<Rightarrow> py_error + 'b) \<Rightarrow> py_error + 'b" where
  "bind_err r f = (case r of Inl e \<Rightarrow> Inl e | Inr v \<Rightarrow> f v)"

fun for_each :: "('i \<Rightarrow> 's \<Rightarrow> py_error + 's) \<Rightarrow> 'i list \<Rightarrow> 's \<Rightarrow> py_error + 's" where
  "for_each body [] s = Inr s"
| "for_each body (i # is) s =
     (case body i s of Inl e \<Rightarrow> Inl e | Inr s' \<Rightarrow> for_each body is s')"

section \<open>Python's numbers\<close>

text \<open>
  A number passed to a function of the notebooks is an \<^verbatim>\<open>int\<close>, which has no bound, or a
  \<^verbatim>\<open>float\<close>, a double: the two built-in types of Python, a boolean counting as the
  \<^verbatim>\<open>int\<close> \<open>0\<close> or \<open>1\<close>. A type with operators of its own, such as a NumPy scalar, is
  not modelled. The doubles and their arithmetic are a parameter: \<open>'f\<close> is the type of
  the doubles (infinities and NaN among them), and a record of type \<open>'f float_ops\<close> holds
  \<^item> \<open>fadd\<close>, \<open>fsub\<close>, \<open>fmul\<close>, \<open>fdiv\<close>: the four operations on doubles, which round and
    never raise (\<open>fdiv\<close> is applied to a divisor that is not zero only);
  \<^item> \<open>fzero\<close>: whether a double is zero, of either sign;
  \<^item> \<open>of_long\<close>: the conversion of an \<^verbatim>\<open>int\<close> to a double, \<open>None\<close> where Python raises
    \<^verbatim>\<open>OverflowError\<close> (int too large to convert to float);
  \<^item> \<open>long_div\<close>: the correctly rounded quotient of two \<^verbatim>\<open>int\<close>s, the divisor not zero,
    \<open>None\<close> where Python raises \<^verbatim>\<open>OverflowError\<close> (integer division result too large
    for a float);
  \<^item> \<open>half\<close>: the literal \<^verbatim>\<open>0.5\<close>;
  \<^item> \<open>fsquare\<close>: \<^verbatim>\<open>x ** 2\<close> for a double \<open>x\<close>, \<open>None\<close> where Python raises
    \<^verbatim>\<open>OverflowError\<close> (numerical result out of range).
\<close>

datatype 'f py_num = PyInt int | PyFloat 'f

record 'f float_ops =
  fadd :: "'f \<Rightarrow> 'f \<Rightarrow> 'f"
  fsub :: "'f \<Rightarrow> 'f \<Rightarrow> 'f"
  fmul :: "'f \<Rightarrow> 'f \<Rightarrow> 'f"
  fdiv :: "'f \<Rightarrow> 'f \<Rightarrow> 'f"
  fzero :: "'f \<Rightarrow> bool"
  of_long :: "int \<Rightarrow> 'f option"
  long_div :: "int \<Rightarrow> int \<Rightarrow> 'f option"
  half :: 'f
  fsquare :: "'f \<Rightarrow> 'f option"

text \<open>
  An operator applied to two \<^verbatim>\<open>int\<close>s computes on integers. Applied to a \<^verbatim>\<open>float\<close> and
  anything else it converts both operands to doubles first, the left one before the right
  one, and the conversion of an \<^verbatim>\<open>int\<close> may raise \<^verbatim>\<open>OverflowError\<close>; only then does
  \<^verbatim>\<open>/\<close> look at the divisor.
\<close>

definition to_double :: "'f float_ops \<Rightarrow> 'f py_num \<Rightarrow> py_error + 'f" where
  "to_double ops x =
     (case x of
        PyFloat f \<Rightarrow> Inr f
      | PyInt i \<Rightarrow> (case of_long ops i of None \<Rightarrow> Inl OverflowError | Some f \<Rightarrow> Inr f))"

definition float_binop ::
  "'f float_ops \<Rightarrow> ('f \<Rightarrow> 'f \<Rightarrow> 'f) \<Rightarrow> 'f py_num \<Rightarrow> 'f py_num \<Rightarrow> py_error + 'f py_num" where
  "float_binop ops op x y =
     bind_err (to_double ops x) (\<lambda>a.
     bind_err (to_double ops y) (\<lambda>b. Inr (PyFloat (op a b))))"

fun py_add :: "'f float_ops \<Rightarrow> 'f py_num \<Rightarrow> 'f py_num \<Rightarrow> py_error + 'f py_num" where
  "py_add ops (PyInt a) (PyInt b) = Inr (PyInt (a + b))"
| "py_add ops x y = float_binop ops (fadd ops) x y"

fun py_sub :: "'f float_ops \<Rightarrow> 'f py_num \<Rightarrow> 'f py_num \<Rightarrow> py_error + 'f py_num" where
  "py_sub ops (PyInt a) (PyInt b) = Inr (PyInt (a - b))"
| "py_sub ops x y = float_binop ops (fsub ops) x y"

fun py_mul :: "'f float_ops \<Rightarrow> 'f py_num \<Rightarrow> 'f py_num \<Rightarrow> py_error + 'f py_num" where
  "py_mul ops (PyInt a) (PyInt b) = Inr (PyInt (a * b))"
| "py_mul ops x y = float_binop ops (fmul ops) x y"

fun py_truediv :: "'f float_ops \<Rightarrow> 'f py_num \<Rightarrow> 'f py_num \<Rightarrow> py_error + 'f py_num" where
  "py_truediv ops (PyInt a) (PyInt b) =
     (if b = 0 then Inl ZeroDivisionError
      else case long_div ops a b of None \<Rightarrow> Inl OverflowError | Some q \<Rightarrow> Inr (PyFloat q))"
| "py_truediv ops x y =
     bind_err (to_double ops x) (\<lambda>a.
     bind_err (to_double ops y) (\<lambda>b.
       if fzero ops b then Inl ZeroDivisionError else Inr (PyFloat (fdiv ops a b))))"

text \<open>\<^verbatim>\<open>x ** 2\<close>.\<close>

definition py_square :: "'f float_ops \<Rightarrow> 'f py_num \<Rightarrow> py_error + 'f py_num" where
  "py_square ops x =
     (case x of
        PyInt a \<Rightarrow> Inr (PyInt (a * a))
      | PyFloat f \<Rightarrow> (case fsquare ops f of None \<Rightarrow> Inl OverflowError | Some g \<Rightarrow> Inr (PyFloat g)))"



text \<open>
  An instance for evaluation at concrete inputs: the reals within the range of a double,
  without rounding. It agrees with the doubles wherever every result is a double (as at
  the inputs evaluated below). An integer, or a quotient of integers, rounds to a finite
  double exactly when its magnitude is below \<open>2 ^ 1024 - 2 ^ 970\<close>.
\<close>

definition fits_double :: "real \<Rightarrow> bool" where
  "fits_double x \<longleftrightarrow> \<bar>x\<bar> < 2 ^ 1024 - 2 ^ 970"

definition exact_ops :: "real float_ops" where
  "exact_ops =
     \<lparr>fadd = (+), fsub = (-), fmul = (*), fdiv = (/), fzero = (\<lambda>x. x = 0),
      of_long = (\<lambda>i. if fits_double (of_int i) then Some (of_int i) else None),
      long_div = (\<lambda>a b. if fits_double (of_int a / of_int b)
                         then Some (of_int a / of_int b) else None),
      half = 0.5,
      fsquare = (\<lambda>x. if fits_double (x * x) then Some (x * x) else None)\<rparr>"

section \<open>Numerical integration (notebook 1)\<close>

text \<open>
  \<^verbatim>\<open>
  def trapezoidal(func, from_a, to_b, n_intervals):
      int_width = (to_b - from_a) / n_intervals
      sum_y = sum(func(from_a + i*int_width) for i in range(n_intervals))
      sum_y += 0.5 * (func(from_a) + func(to_b))
      return sum_y * int_width
  \<close>
  The function is modelled twice. \<open>trapezoidal\<close> is its reading in exact arithmetic: every
  number is a \<^typ>\<open>real\<close>, \<open>func\<close> returns, and no operand leaves the range of a double,
  so that \<^verbatim>\<open>/\<close> raises on a zero divisor only. \<open>trapezoidal_num\<close>, further down, is
  the function on Python's \<^verbatim>\<open>int\<close>s and \<^verbatim>\<open>float\<close>s with every error of its operators and
  of \<open>func\<close>; \<open>trapezoidal_num_exact\<close> shows that the two agree on \<open>exact_ops\<close>.
\<close>

definition trapezoidal :: "(real \<Rightarrow> real) \<Rightarrow> real \<Rightarrow> real \<Rightarrow> int \<Rightarrow> py_error + real" where
  "trapezoidal func from_a to_b n_intervals =
     (if n_intervals = 0 then Inl ZeroDivisionError
      else
        let int_width = (to_b - from_a) / of_int n_intervals;
            sum_y = sum_list (map (\<lambda>i. func (from_a + of_int i * int_width)) (py_range n_intervals));
            sum_y = sum_y + 0.5 * (func from_a + func to_b)
        in Inr (sum_y * int_width))"

text \<open>
  \<^verbatim>\<open>
  def some_polynomial_function(x):
      return 2 * x**2 + 3 * x + 1
  \<close>
\<close>

definition some_polynomial_function :: "real \<Rightarrow> real" where
  "some_polynomial_function x = 2 * x ^ 2 + 3 * x + 1"

text \<open>
  The Cython cell:
  \<^verbatim>\<open>
  cdef inline double fast_polynomial(double x):
      return 2*x*x + 3*x + 1

  cpdef trapezodial_fast(double a, double b, int n):
      cdef double h, x, sumy
      cdef int i
      h = (b-a)/n
      sumy = 0
      x=a
      for i in range(n):
          x += h
          sumy += fast_polynomial(x)
      sumy += 0.5*(fast_polynomial(a) + fast_polynomial(b))
      return sumy*h
  \<close>
  The argument \<^verbatim>\<open>n\<close> is a C \<^verbatim>\<open>int\<close>: a Python integer outside 32 bits is refused with
  \<^verbatim>\<open>OverflowError\<close> when the call converts it. Cython checks the divisor of \<^verbatim>\<open>/\<close>
  and raises \<^verbatim>\<open>ZeroDivisionError\<close>. The loop carries the pair \<open>(x, sumy)\<close>.
\<close>

definition fast_polynomial :: "real \<Rightarrow> real" where
  "fast_polynomial x = 2 * x * x + 3 * x + 1"

definition fast_step :: "real \<Rightarrow> int \<Rightarrow> real \<times> real \<Rightarrow> real \<times> real" where
  "fast_step h i s = (case s of (x, sumy) \<Rightarrow> let x = x + h in (x, sumy + fast_polynomial x))"

definition trapezodial_fast :: "real \<Rightarrow> real \<Rightarrow> int \<Rightarrow> py_error + real" where
  "trapezodial_fast a b n =
     (if n < - (2 ^ 31) \<or> 2 ^ 31 \<le> n then Inl OverflowError
      else if n = 0 then Inl ZeroDivisionError
      else
        let h = (b - a) / of_int n;
            sumy = snd (fold (fast_step h) (py_range n) (a, 0));
            sumy = sumy + 0.5 * (fast_polynomial a + fast_polynomial b)
        in Inr (sumy * h))"

text \<open>
  The composite trapezoidal rule as the specification words it:
  \<open>h * ((f a + f b) / 2 + (\<Sum>i = 1..n - 1. f (a + i * h)))\<close> with \<open>h = (b - a) / n\<close>.
\<close>

definition composite_trapezoid_rule :: "(real \<Rightarrow> real) \<Rightarrow> real \<Rightarrow> real \<Rightarrow> int \<Rightarrow> real" where
  "composite_trapezoid_rule f a b n =
     (let h = (b - a) / of_int n
      in h * ((f a + f b) / 2 + sum_list (map (\<lambda>i. f (a + real i * h)) [1..<nat n])))"

text \<open>
  \<open>trapezoidal\<close> on Python's numbers. \<open>func\<close> is a callable that takes a number and
  returns an \<^verbatim>\<open>int\<close> or a \<^verbatim>\<open>float\<close>, or raises; it is a function of its argument
  here. The division comes first; \<^verbatim>\<open>range\<close> refuses a \<^verbatim>\<open>float\<close> with
  \<^verbatim>\<open>TypeError\<close> before \<open>func\<close> is called; \<^verbatim>\<open>sum\<close> starts from the \<^verbatim>\<open>int\<close> \<open>0\<close> and adds the
  items from left to right, each item being computed just before it is added (from
  CPython 3.12 on, \<^verbatim>\<open>sum\<close> compensates the rounding of a sum of floats, which changes the
  value of the sum and none of its errors).
\<close>

definition trapezoidal_step ::
  "'f float_ops \<Rightarrow> ('f py_num \<Rightarrow> py_error + 'f py_num) \<Rightarrow> 'f py_num \<Rightarrow> 'f py_num \<Rightarrow>
     int \<Rightarrow> 'f py_num \<Rightarrow> py_error + 'f py_num" where
  "trapezoidal_step ops func from_a int_width i sum_y =
     bind_err (py_mul ops (PyInt i) int_width) (\<lambda>offset.
     bind_err (py_add ops from_a offset) (\<lambda>x.
     bind_err (func x) (\<lambda>y.
       py_add ops sum_y y)))"

definition trapezoidal_num ::
  "'f float_ops \<Rightarrow> ('f py_num \<Rightarrow> py_error + 'f py_num) \<Rightarrow> 'f py_num \<Rightarrow> 'f py_num \<Rightarrow>
     'f py_num \<Rightarrow> py_error + 'f py_num" where
  "trapezoidal_num ops func from_a to_b n_intervals =
     bind_err (py_sub ops to_b from_a) (\<lambda>width.
     bind_err (py_truediv ops width n_intervals) (\<lambda>int_width.
       case n_intervals of
         PyFloat _ \<Rightarrow> Inl TypeError
       | PyInt n \<Rightarrow>
           bind_err (for_each (trapezoidal_step ops func from_a int_width) (py_range n) (PyInt 0))
             (\<lambda>sum_y.
           bind_err (func from_a) (\<lambda>fa.
           bind_err (func to_b) (\<lambda>fb.
           bind_err (py_add ops fa fb) (\<lambda>ends.
           bind_err (py_mul ops (PyFloat (half ops)) ends) (\<lambda>half_ends.
           bind_err (py_add ops sum_y half_ends) (\<lambda>sum_y.
             py_mul ops sum_y int_width))))))))"

text \<open>\<^verbatim>\<open>some_polynomial_function\<close> on Python's numbers: \<^verbatim>\<open>2 * x**2 + 3 * x + 1\<close>.\<close>

definition some_polynomial_function_num ::
  "'f float_ops \<Rightarrow> 'f py_num \<Rightarrow> py_error + 'f py_num" where
  "some_polynomial_function_num ops x =
     bind_err (py_square ops x) (\<lambda>sq.
     bind_err (py_mul ops (PyInt 2) sq) (\<lambda>t2.
     bind_err (py_mul ops (PyInt 3) x) (\<lambda>t1.
     bind_err (py_add ops t2 t1) (\<lambda>s.
       py_add ops s (PyInt 1)))))"

text \<open>The embedding of a real function as a callable, for \<open>exact_ops\<close>.\<close>

definition callable_of :: "(real \<Rightarrow> real) \<Rightarrow> real py_num \<Rightarrow> py_error + real py_num" where
  "callable_of f x = Inr (PyFloat (f (case x of PyInt i \<Rightarrow> of_int i | PyFloat r \<Rightarrow> r)))"

section \<open>The debugger example (notebook 2)\<close>

text \<open>
  \<^verbatim>\<open>
  def div(x, y):
      return x/y

  div(1,0)
  \<close>
\<close>

definition div_py :: "'f float_ops \<Rightarrow> 'f py_num \<Rightarrow> 'f py_num \<Rightarrow> py_error + 'f py_num" where
  "div_py ops x y = py_truediv ops x y"

section \<open>Laplace's equation on a grid (notebook 1)\<close>

text \<open>
  A two-dimensional NumPy array is the list of its rows. \<open>is_array2 nx ny u\<close> says that
  \<open>u\<close> has shape \<open>(nx, ny)\<close>. The entries are floating-point numbers in the program and
  exact reals here; which entries a function writes does not depend on the arithmetic.
\<close>

type_synonym array2 = "real list list"

definition is_array2 :: "nat \<Rightarrow> nat \<Rightarrow> array2 \<Rightarrow> bool" where
  "is_array2 nx ny u \<longleftrightarrow> length u = nx \<and> (\<forall>row \<in> set u. length row = ny)"

definition ncols :: "array2 \<Rightarrow> nat" where
  "ncols u = (case u of [] \<Rightarrow> 0 | row # _ \<Rightarrow> length row)"

text \<open>
  \<^verbatim>\<open>u[i, j]\<close> and \<^verbatim>\<open>u[i, j] = v\<close> for indices that are not negative; an index past the end
  raises \<^verbatim>\<open>IndexError\<close>.
\<close>

definition item :: "array2 \<Rightarrow> nat \<Rightarrow> nat \<Rightarrow> py_error + real" where
  "item u i j = (if i < length u \<and> j < length (u ! i) then Inr (u ! i ! j) else Inl IndexError)"

definition setitem :: "array2 \<Rightarrow> nat \<Rightarrow> nat \<Rightarrow> real \<Rightarrow> py_error + array2" where
  "setitem u i j v =
     (if i < length u \<and> j < length (u ! i) then Inr (u[i := (u ! i)[j := v]])
      else Inl IndexError)"

text \<open>
  \<^verbatim>\<open>
  dx = 0.1
  dy = 0.1
  dx2 = dx*dx
  dy2 = dy*dy

  def py_update(u):
      nx, ny = u.shape
      for i in range(1,nx-1):
          for j in range(1, ny-1):
              u[i,j] = ((u[i+1, j] + u[i-1, j]) * dy2 +
                        (u[i, j+1] + u[i, j-1]) * dx2) / (2*(dx2+dy2))
  \<close>
  The function updates \<^verbatim>\<open>u\<close> in place; the model returns the updated array.
\<close>

definition dx :: real where "dx = 0.1"
definition dy :: real where "dy = 0.1"
definition dx2 :: real where "dx2 = dx * dx"
definition dy2 :: real where "dy2 = dy * dy"

definition py_cell :: "nat \<Rightarrow> nat \<Rightarrow> array2 \<Rightarrow> py_error + array2" where
  "py_cell i j u =
     bind_err (item u (i + 1) j) (\<lambda>down.
     bind_err (item u (i - 1) j) (\<lambda>up.
     bind_err (item u i (j + 1)) (\<lambda>right.
     bind_err (item u i (j - 1)) (\<lambda>left.
       setitem u i j (((down + up) * dy2 + (right + left) * dx2) / (2 * (dx2 + dy2)))))))"

definition py_update :: "array2 \<Rightarrow> py_error + array2" where
  "py_update u =
     (let nx = length u; ny = ncols u
      in for_each (\<lambda>i. for_each (py_cell i) [1..<ny - 1]) [1..<nx - 1] u)"

text \<open>
  \<^verbatim>\<open>
  def num_update(u):
      u[1:-1,1:-1] = ((u[2:,1:-1]+u[:-2,1:-1])*dy2 +
                      (u[1:-1,2:] + u[1:-1,:-2])*dx2) / (2*(dx2+dy2))
  \<close>
  \<open>slice lo hi xs\<close> is \<^verbatim>\<open>xs[lo:hi]\<close> for bounds that are not negative; the stop \<^verbatim>\<open>-k\<close>
  of the source is \<open>length xs - k\<close>, which Python clips at \<open>0\<close> as the subtraction of
  naturals does. The right-hand side is computed from the old array, then assigned.
  NumPy broadcasts operands of different shapes where it can and raises
  \<^verbatim>\<open>ValueError\<close> where it cannot. The model raises \<^verbatim>\<open>ValueError\<close> for every mismatch:
  on a two-dimensional array the four slices and the assigned region have the same shape
  (\<open>is_array2_slice2\<close> below), so that neither case arises.
\<close>

definition slice :: "nat \<Rightarrow> nat \<Rightarrow> 'a list \<Rightarrow> 'a list" where
  "slice lo hi xs = drop lo (take hi xs)"

definition slice2 :: "nat \<Rightarrow> nat \<Rightarrow> nat \<Rightarrow> nat \<Rightarrow> array2 \<Rightarrow> array2" where
  "slice2 r0 r1 c0 c1 u = map (slice c0 c1) (slice r0 r1 u)"

definition same_shape :: "array2 \<Rightarrow> array2 \<Rightarrow> bool" where
  "same_shape A B \<longleftrightarrow> map length A = map length B"

definition ew_add :: "array2 \<Rightarrow> array2 \<Rightarrow> py_error + array2" where
  "ew_add A B = (if same_shape A B then Inr (map2 (map2 (+)) A B) else Inl ValueError)"

definition ew_mul :: "array2 \<Rightarrow> real \<Rightarrow> array2" where
  "ew_mul A c = map (map (\<lambda>x. x * c)) A"

definition ew_div :: "array2 \<Rightarrow> real \<Rightarrow> array2" where
  "ew_div A c = map (map (\<lambda>x. x / c)) A"

definition set_slice :: "nat \<Rightarrow> nat \<Rightarrow> 'a list \<Rightarrow> 'a list \<Rightarrow> 'a list" where
  "set_slice lo hi ys xs = take lo xs @ ys @ drop (max lo hi) xs"

definition set_slice2 :: "nat \<Rightarrow> nat \<Rightarrow> nat \<Rightarrow> nat \<Rightarrow> array2 \<Rightarrow> array2 \<Rightarrow> py_error + array2" where
  "set_slice2 r0 r1 c0 c1 B u =
     (if same_shape (slice2 r0 r1 c0 c1 u) B
      then Inr (set_slice r0 r1 (map2 (set_slice c0 c1) B (slice r0 r1 u)) u)
      else Inl ValueError)"

definition num_update :: "array2 \<Rightarrow> py_error + array2" where
  "num_update u =
     (let nx = length u; ny = ncols u
      in bind_err (ew_add (slice2 2 nx 1 (ny - 1) u) (slice2 0 (nx - 2) 1 (ny - 1) u)) (\<lambda>vert.
         bind_err (ew_add (slice2 1 (nx - 1) 2 ny u) (slice2 1 (nx - 1) 0 (ny - 2) u)) (\<lambda>horiz.
         bind_err (ew_add (ew_mul vert dy2) (ew_mul horiz dx2)) (\<lambda>total.
           set_slice2 1 (nx - 1) 1 (ny - 1) (ew_div total (2 * (dx2 + dy2))) u))))"

text \<open>
  \<^verbatim>\<open>
  def calc(N, Niter=100, func=py_update, args=()):
      u = np.zeros([N, N])
      u[0] = 1
      for i in range(Niter):
          func(u,*args)
      return u
  \<close>
  \<^verbatim>\<open>np.zeros\<close> refuses a negative dimension with \<^verbatim>\<open>ValueError\<close>; \<^verbatim>\<open>u[0] = 1\<close> fills row
  \<open>0\<close> and raises \<^verbatim>\<open>IndexError\<close> when there is no such row. \<^verbatim>\<open>args\<close> is empty.
\<close>

definition zeros :: "int \<Rightarrow> int \<Rightarrow> py_error + array2" where
  "zeros n m = (if n < 0 \<or> m < 0 then Inl ValueError
                else Inr (replicate (nat n) (replicate (nat m) 0)))"

definition fill_row :: "array2 \<Rightarrow> nat \<Rightarrow> real \<Rightarrow> py_error + array2" where
  "fill_row u i v =
     (if i < length u then Inr (u[i := replicate (length (u ! i)) v]) else Inl IndexError)"

definition calc :: "int \<Rightarrow> int \<Rightarrow> (array2 \<Rightarrow> py_error + array2) \<Rightarrow> py_error + array2" where
  "calc N Niter func =
     bind_err (zeros N N) (\<lambda>u.
     bind_err (fill_row u 0 1) (\<lambda>u.
       for_each (\<lambda>i. func) (py_range Niter) u))"

text \<open>
  An entry \<open>(i, j)\<close> of an array of shape \<open>(nx, ny)\<close> is interior when
  \<open>1 \<le> i \<le> nx - 2\<close> and \<open>1 \<le> j \<le> ny - 2\<close>.
\<close>

definition interior :: "nat \<Rightarrow> nat \<Rightarrow> nat \<Rightarrow> nat \<Rightarrow> bool" where
  "interior nx ny i j \<longleftrightarrow> 1 \<le> i \<and> i + 2 \<le> nx \<and> 1 \<le> j \<and> j + 2 \<le> ny"

text \<open>
  \<open>boundary_kept nx ny u u'\<close>: \<open>u'\<close> has shape \<open>(nx, ny)\<close> and agrees with \<open>u\<close> at every
  entry that is not interior.
\<close>

definition boundary_kept :: "nat \<Rightarrow> nat \<Rightarrow> array2 \<Rightarrow> array2 \<Rightarrow> bool" where
  "boundary_kept nx ny u u' \<longleftrightarrow>
     is_array2 nx ny u' \<and> (\<forall>i<nx. \<forall>j<ny. \<not> interior nx ny i j \<longrightarrow> u' ! i ! j = u ! i ! j)"

section \<open>Data frames (notebooks 1 and 4)\<close>

text \<open>
  \<^verbatim>\<open>
  df = pd.read_csv('../data/mastectomy.csv')

  df.event = df.event.astype(int)
  df.metastized = (df.metastized == 'yes').astype(int)
  n_patients = df.shape[0]
  \<close>
  The data frame is the record of its three columns, a column the list of its cells. A
  cell of a loaded file is a boolean, an integer (an int64 or a uint64), a finite float,
  a string or a missing value.
\<close>

datatype cell = BoolV bool | IntV int | FloatV real | StrV string | NaN









text \<open>
  \<^verbatim>\<open>
  vlbw = pd.read_csv('../data/vlbw.csv', index_col=0).dropna(axis=0, subset=['ivh', 'pneumo'])
  \<close>
  The frame is the list of its rows. A row is a record with the columns \<^verbatim>\<open>ivh\<close> and
  \<^verbatim>\<open>pneumo\<close>; the other columns of the file are the extension of the record. \<^verbatim>\<open>dropna\<close>
  drops every row in which one of the two is missing.
\<close>

record vlbw_row =
  ivh :: cell
  pneumo :: cell




section \<open>Auxiliary notions for the proofs\<close>


definition acc_value :: "real py_num \<Rightarrow> real" where
  "acc_value s = (case s of PyInt i \<Rightarrow> of_int i | PyFloat r \<Rightarrow> r)"

section \<open>Properties of sequencing and loops\<close>

lemma bind_err_Inr: "bind_err (Inr v) f = f v"
  by (simp add: bind_err_def)




lemma for_each_inv:
  assumes "\<And>i s. i \<in> set xs \<Longrightarrow> P s \<Longrightarrow> \<exists>s'. body i s = Inr s' \<and> P s'"
    and "P s"
  shows "\<exists>s'. for_each body xs s = Inr s' \<and> P s'"
  using assms
proof (induction xs arbitrary: s)
  case Nil
  then show ?case by simp
next
  case (Cons x xs)
  from Cons.prems obtain s1 where s1: "body x s = Inr s1" "P s1"
    by (meson list.set_intros(1))
  have "\<exists>s'. for_each body xs s1 = Inr s' \<and> P s'"
    by (rule Cons.IH) (auto intro: Cons.prems(1) s1)
  with s1 show ?case by simp
qed

section \<open>Properties of the integration functions\<close>

lemma fast_polynomial_eq: "fast_polynomial = some_polynomial_function"
  by (rule ext) (simp add: fast_polynomial_def some_polynomial_function_def power2_eq_square)

lemma py_range_pos: "1 \<le> n \<Longrightarrow> py_range n = 0 # map int [1..<nat n]"
  by (simp add: py_range_def upt_conv_Cons)

lemma trapezoidal_value:
  assumes "1 \<le> n"
  shows "trapezoidal f a b n =
           Inr (composite_trapezoid_rule f a b n + (b - a) / of_int n * f a)"
proof -
  have n0: "n \<noteq> 0" using assms by simp
  have r: "real (nat n) = of_int n" using assms by simp
  show ?thesis
    using n0
    by (simp add: trapezoidal_def composite_trapezoid_rule_def Let_def py_range_pos [OF assms]
          o_def algebra_simps)
qed

lemma fast_step_pair: "fast_step h i (x, s) = (x + h, s + fast_polynomial (x + h))"
  by (simp add: fast_step_def Let_def)

lemma fast_loop:
  "fold (fast_step h) (map int [0..<k]) (x, s) =
     (x + real k * h, s + sum_list (map (\<lambda>i. fast_polynomial (x + real (Suc i) * h)) [0..<k]))"
proof (induction k)
  case 0
  show ?case by simp
next
  case (Suc k)
  have "fold (fast_step h) (map int [0..<Suc k]) (x, s) =
          fast_step h (int k) (fold (fast_step h) (map int [0..<k]) (x, s))"
    by simp
  also have "\<dots> = fast_step h (int k)
      (x + real k * h, s + sum_list (map (\<lambda>i. fast_polynomial (x + real (Suc i) * h)) [0..<k]))"
    by (simp only: Suc)
  finally have eq: "fold (fast_step h) (map int [0..<Suc k]) (x, s) = fast_step h (int k)
      (x + real k * h, s + sum_list (map (\<lambda>i. fast_polynomial (x + real (Suc i) * h)) [0..<k]))" .
  show ?case
    unfolding eq fast_step_pair by (simp add: algebra_simps)
qed

lemma sum_shift:
  "sum_list (map (\<lambda>i. g (Suc i)) [0..<k]) = sum_list (map g [0..<k]) + g k - g (0::nat)"
  for g :: "nat \<Rightarrow> real"
  by (induction k) simp_all

lemma fast_vs_trapezoidal:
  assumes "1 \<le> n" "n < 2 ^ 31"
  shows "\<exists>w. trapezoidal some_polynomial_function a b n = Inr w
           \<and> trapezodial_fast a b n =
               Inr (w + (b - a) / of_int n * (some_polynomial_function b - some_polynomial_function a))"
proof -
  define h where "h = (b - a) / of_int n"
  define g where "g i = some_polynomial_function (a + real i * h)" for i
  have n0: "n \<noteq> 0" and nn: "\<not> n < - (2 ^ 31)" "\<not> 2 ^ 31 \<le> n" using assms by simp_all
  have r: "real (nat n) = of_int n" using assms by simp
  have ab: "a + real (nat n) * h = b" using n0 by (simp add: h_def r)
  have g0: "g 0 = some_polynomial_function a" by (simp add: g_def)
  have gn: "g (nat n) = some_polynomial_function b" by (simp add: g_def ab)
  have f: "trapezodial_fast a b n =
      Inr ((sum_list (map (\<lambda>i. g (Suc i)) [0..<nat n])
            + 0.5 * (some_polynomial_function a + some_polynomial_function b)) * h)"
    unfolding g_def using n0 nn
    by (simp add: trapezodial_fast_def py_range_def fast_loop fast_polynomial_eq h_def Let_def)
  have t: "trapezoidal some_polynomial_function a b n =
      Inr ((sum_list (map g [0..<nat n])
            + 0.5 * (some_polynomial_function a + some_polynomial_function b)) * h)"
    unfolding g_def using n0 by (simp add: trapezoidal_def py_range_def h_def Let_def o_def)
  show ?thesis
    unfolding f t sum_shift g0 gn h_def [symmetric]
    by (intro exI conjI, rule refl) (simp add: algebra_simps)
qed

section \<open>Properties of Python's arithmetic\<close>











section \<open>Properties of the integration on Python's numbers\<close>











section \<open>The two models of the integration agree\<close>


lemma exact_ops_sel:
  "fadd exact_ops = (+)" "fsub exact_ops = (-)" "fmul exact_ops = (*)" "fdiv exact_ops = (/)"
  "fzero exact_ops x \<longleftrightarrow> x = 0"
  "of_long exact_ops i = (if fits_double (of_int i) then Some (of_int i) else None)"
  "long_div exact_ops a b =
     (if fits_double (of_int a / of_int b) then Some (of_int a / of_int b) else None)"
  "half exact_ops = 0.5"
  "fsquare exact_ops x = (if fits_double (x * x) then Some (x * x) else None)"
  by (simp_all add: exact_ops_def)


lemma fits_double_mono: "\<bar>x\<bar> \<le> \<bar>y\<bar> \<Longrightarrow> fits_double y \<Longrightarrow> fits_double x"
  by (simp add: fits_double_def)

lemma fits_double_0: "fits_double 0"
  by (simp add: fits_double_def)

lemma for_each_snoc:
  "for_each body (xs @ [x]) s = bind_err (for_each body xs s) (body x)"
  by (induction xs arbitrary: s) (auto simp: bind_err_def split: sum.splits)

lemma exact_step:
  assumes "fits_double (of_int i)"
  shows "trapezoidal_step exact_ops (callable_of f) (PyFloat a) (PyFloat h) i s =
           (if fits_double (acc_value s) \<or> (\<exists>r. s = PyFloat r)
            then Inr (PyFloat (acc_value s + f (a + of_int i * h))) else Inl OverflowError)"
  using assms
  by (cases s)
     (simp_all add: trapezoidal_step_def float_binop_def to_double_def bind_err_def
        exact_ops_sel callable_of_def acc_value_def)

lemma exact_loop:
  assumes "\<forall>i<k. fits_double (real i)"
  shows "for_each (trapezoidal_step exact_ops (callable_of f) (PyFloat a) (PyFloat h))
           (map int [0..<k]) (PyInt 0) =
         Inr (if k = 0 then PyInt 0
              else PyFloat (sum_list (map (\<lambda>i. f (a + real i * h)) [0..<k])))"
  using assms
proof (induction k)
  case 0
  show ?case by simp
next
  case (Suc k)
  then have IH: "for_each (trapezoidal_step exact_ops (callable_of f) (PyFloat a) (PyFloat h))
           (map int [0..<k]) (PyInt 0) =
         Inr (if k = 0 then PyInt 0
              else PyFloat (sum_list (map (\<lambda>i. f (a + real i * h)) [0..<k])))"
    by simp
  from Suc.prems have fk: "fits_double (of_int (int k))" by simp
  show ?case
    by (simp add: for_each_snoc IH bind_err_Inr exact_step [OF fk] acc_value_def fits_double_0)
qed

lemma trapezoidal_num_exact:
  assumes "fits_double (of_int n)"
  shows "trapezoidal_num exact_ops (callable_of f) (PyFloat a) (PyFloat b) (PyInt n) =
           (case trapezoidal f a b n of Inl e \<Rightarrow> Inl e | Inr r \<Rightarrow> Inr (PyFloat r))"
proof (cases "n = 0")
  case True
  then show ?thesis
    by (simp add: trapezoidal_num_def trapezoidal_def float_binop_def to_double_def bind_err_def
        exact_ops_sel fits_double_0)
next
  case False
  define h where "h = (b - a) / of_int n"
  have width: "py_truediv exact_ops (PyFloat (b - a)) (PyInt n) = Inr (PyFloat h)"
    using False assms by (simp add: to_double_def bind_err_def exact_ops_sel h_def)
  have small: "\<forall>i<nat n. fits_double (real i)"
  proof (intro allI impI)
    fix i assume "i < nat n"
    then have "\<bar>real i\<bar> \<le> \<bar>real_of_int n\<bar>" by simp
    from fits_double_mono [OF this assms] show "fits_double (real i)" .
  qed
  have loop: "for_each (trapezoidal_step exact_ops (callable_of f) (PyFloat a) (PyFloat h))
           (py_range n) (PyInt 0) =
         Inr (if nat n = 0 then PyInt 0
              else PyFloat (sum_list (map (\<lambda>i. f (a + real i * h)) [0..<nat n])))"
    unfolding py_range_def by (rule exact_loop [OF small])
  have sub: "py_sub exact_ops (PyFloat b) (PyFloat a) = Inr (PyFloat (b - a))"
    by (simp add: float_binop_def to_double_def bind_err_def exact_ops_sel)
  show ?thesis
    unfolding trapezoidal_num_def sub bind_err_Inr width py_num.case loop
    using False
    by (simp add: trapezoidal_def h_def [symmetric] py_range_def callable_of_def bind_err_def
        float_binop_def to_double_def exact_ops_sel fits_double_0 o_def Let_def)
qed

text \<open>
  The calls of the notebook, and four calls in which an \<^verbatim>\<open>int\<close> or a quotient of
  \<^verbatim>\<open>int\<close>s does not fit a double: \<^verbatim>\<open>div(10**400, 1)\<close>, \<^verbatim>\<open>div(1.0, 10**400)\<close>,
  \<^verbatim>\<open>div(10**400, 0.0)\<close> and \<^verbatim>\<open>trapezoidal(func, 1.0, 5.0, 10**400)\<close>.
\<close>

lemma fits_double_le: "\<bar>x\<bar> \<le> 2 ^ 20 \<Longrightarrow> fits_double x"
proof -
  assume "\<bar>x\<bar> \<le> 2 ^ 20"
  moreover have "(2::real) ^ 20 < 2 ^ 1024 - 2 ^ 970" by simp
  ultimately show ?thesis unfolding fits_double_def by linarith
qed

lemma notebook_calls:
  "trapezoidal_num exact_ops (some_polynomial_function_num exact_ops)
     (PyInt 1) (PyInt 5) (PyInt 4) = Inr (PyFloat 130)"
  "div_py exact_ops (PyInt 1) (PyInt 0) = Inl ZeroDivisionError"
  by (simp_all add: trapezoidal_num_def trapezoidal_step_def some_polynomial_function_num_def
      py_square_def div_py_def float_binop_def to_double_def bind_err_def exact_ops_sel
      fits_double_le py_range_def upt_rec)

lemma overflow_examples:
  "div_py exact_ops (PyInt (10 ^ 400)) (PyInt 1) = Inl OverflowError"
  "div_py exact_ops (PyFloat 1) (PyInt (10 ^ 400)) = Inl OverflowError"
  "div_py exact_ops (PyInt (10 ^ 400)) (PyFloat 0) = Inl OverflowError"
  "trapezoidal_num exact_ops func (PyFloat 1) (PyFloat 5) (PyInt (10 ^ 400)) = Inl OverflowError"
  by (simp_all add: div_py_def trapezoidal_num_def float_binop_def to_double_def bind_err_def
      exact_ops_sel fits_double_def)

section \<open>Properties of the grid updates\<close>

lemma is_array2_nth: "is_array2 nx ny u \<longleftrightarrow> length u = nx \<and> (\<forall>i<nx. length (u ! i) = ny)"
  by (auto simp: is_array2_def all_set_conv_all_nth)

lemma boundary_kept_refl: "is_array2 nx ny u \<Longrightarrow> boundary_kept nx ny u u"
  by (simp add: boundary_kept_def)

lemma boundary_kept_trans:
  "boundary_kept nx ny u v \<Longrightarrow> boundary_kept nx ny v w \<Longrightarrow> boundary_kept nx ny u w"
  by (simp add: boundary_kept_def)

lemma ncols_array2: "is_array2 nx ny u \<Longrightarrow> 0 < nx \<Longrightarrow> ncols u = ny"
  by (cases u) (auto simp: is_array2_def ncols_def)

lemma py_cell_frame:
  assumes "boundary_kept nx ny u s" and "interior nx ny i j"
  shows "\<exists>s'. py_cell i j s = Inr s' \<and> boundary_kept nx ny u s'"
proof -
  from assms(1) have len: "length s = nx" and rows: "\<And>k. k < nx \<Longrightarrow> length (s ! k) = ny"
    by (simp_all add: boundary_kept_def is_array2_nth)
  from assms(2) have ij: "1 \<le> i" "i + 1 < nx" "1 \<le> j" "j + 1 < ny"
    by (simp_all add: interior_def)
  define v where "v = ((s ! (i + 1) ! j + s ! (i - 1) ! j) * dy2
                       + (s ! i ! (j + 1) + s ! i ! (j - 1)) * dx2) / (2 * (dx2 + dy2))"
  have lt: "i < nx" "i - 1 < nx" "j < ny" "j - 1 < ny"
    using ij by arith+
  have run: "py_cell i j s = Inr (s[i := (s ! i)[j := v]])"
    using ij lt len rows [OF lt(1)] rows [OF ij(2)] rows [OF lt(2)]
    by (simp add: py_cell_def item_def setitem_def bind_err_def v_def)
  have "boundary_kept nx ny u (s[i := (s ! i)[j := v]])"
    using assms ij
    by (auto simp: boundary_kept_def is_array2_nth nth_list_update)
  with run show ?thesis by blast
qed

lemma py_update_frame:
  assumes "is_array2 nx ny u"
  shows "\<exists>u'. py_update u = Inr u' \<and> boundary_kept nx ny u u'"
proof (cases "nx = 0")
  case True
  with assms show ?thesis
    by (simp add: py_update_def is_array2_def boundary_kept_def)
next
  case False
  with assms have nc: "ncols u = ny" and len: "length u = nx"
    by (simp_all add: ncols_array2 is_array2_def)
  have inner: "\<exists>s'. for_each (py_cell i) [1..<ny - 1] s = Inr s' \<and> boundary_kept nx ny u s'"
    if "i \<in> set [1..<nx - 1]" and "boundary_kept nx ny u s" for i s
  proof (rule for_each_inv [where P = "boundary_kept nx ny u"])
    fix j t
    assume "j \<in> set [1..<ny - 1]" and "boundary_kept nx ny u t"
    with that(1) show "\<exists>s'. py_cell i j t = Inr s' \<and> boundary_kept nx ny u s'"
      by (intro py_cell_frame) (auto simp: interior_def)
  qed (rule that(2))
  have "\<exists>s'. for_each (\<lambda>i. for_each (py_cell i) [1..<ny - 1]) [1..<nx - 1] u = Inr s'
          \<and> boundary_kept nx ny u s'"
  proof (rule for_each_inv [where P = "boundary_kept nx ny u"])
    show "boundary_kept nx ny u u"
      by (rule boundary_kept_refl [OF assms])
  qed (rule inner)
  then show ?thesis
    by (simp add: py_update_def nc len)
qed

lemma same_shape_array2: "is_array2 n m A \<Longrightarrow> is_array2 n m B \<Longrightarrow> same_shape A B"
  by (auto simp: is_array2_def same_shape_def list_eq_iff_nth_eq)

lemma is_array2_slice2:
  "is_array2 nx ny u \<Longrightarrow> is_array2 (min r1 nx - r0) (min c1 ny - c0) (slice2 r0 r1 c0 c1 u)"
  by (auto simp: is_array2_def slice2_def slice_def min.commute dest!: in_set_dropD in_set_takeD)

lemma ew_add_array2:
  assumes "is_array2 n m A" "is_array2 n m B"
  shows "\<exists>C. ew_add A B = Inr C \<and> is_array2 n m C"
proof -
  have "is_array2 n m (map2 (map2 (+)) A B)"
    using assms by (auto simp: is_array2_nth)
  with assms show ?thesis
    by (simp add: ew_add_def same_shape_array2)
qed

lemma is_array2_ew_mul: "is_array2 n m A \<Longrightarrow> is_array2 n m (ew_mul A c)"
  by (auto simp: is_array2_def ew_mul_def)

lemma is_array2_ew_div: "is_array2 n m A \<Longrightarrow> is_array2 n m (ew_div A c)"
  by (auto simp: is_array2_def ew_div_def)

lemma length_set_slice:
  "hi \<le> length xs \<Longrightarrow> length ys = hi - lo \<Longrightarrow> length (set_slice lo hi ys xs) = length xs"
  by (auto simp: set_slice_def)

lemma nth_set_slice_outside:
  assumes "hi \<le> length xs" "length ys = hi - lo" "k < length xs" "k < lo \<or> hi \<le> k"
  shows "set_slice lo hi ys xs ! k = xs ! k"
proof (cases "k < lo")
  case True
  with assms show ?thesis by (simp add: set_slice_def nth_append)
next
  case False
  with assms have k: "lo \<le> k" "hi \<le> k" by simp_all
  have a: "length (take lo xs) = lo"
    using k assms(3) by simp
  have b: "\<not> k - lo < hi - lo" "max lo hi + (k - lo - (hi - lo)) = k"
    using k by arith+
  show ?thesis
    unfolding set_slice_def using False assms(2,3) b
    by (simp only: nth_append a if_False nth_drop)
qed

lemma nth_set_slice_inside:
  assumes "hi \<le> length xs" "length ys = hi - lo" "lo \<le> k" "k < hi"
  shows "set_slice lo hi ys xs ! k = ys ! (k - lo)"
proof -
  have a: "length (take lo xs) = lo" "\<not> k < lo" "k - lo < hi - lo"
    using assms by simp_all
  show ?thesis
    unfolding set_slice_def using assms(2) a
    by (simp only: nth_append if_False if_True)
qed

lemma is_array2_slice2_eq:
  "is_array2 nx ny u \<Longrightarrow> n = min r1 nx - r0 \<Longrightarrow> m = min c1 ny - c0 \<Longrightarrow>
   is_array2 n m (slice2 r0 r1 c0 c1 u)"
  by (simp add: is_array2_slice2)

lemma set_slice2_frame:
  assumes u: "is_array2 nx ny u" and B: "is_array2 (nx - 2) (ny - 2) B"
  shows "\<exists>u'. set_slice2 1 (nx - 1) 1 (ny - 1) B u = Inr u' \<and> boundary_kept nx ny u u'"
proof -
  define rows where "rows = map2 (set_slice 1 (ny - 1)) B (slice 1 (nx - 1) u)"
  define u' where "u' = set_slice 1 (nx - 1) rows u"
  from u have len: "length u = nx" and row: "\<And>i. i < nx \<Longrightarrow> length (u ! i) = ny"
    by (simp_all add: is_array2_nth)
  from B have lenB: "length B = nx - 2" and rowB: "\<And>i. i < nx - 2 \<Longrightarrow> length (B ! i) = ny - 2"
    by (simp_all add: is_array2_nth)
  have "is_array2 (nx - 2) (ny - 2) (slice2 1 (nx - 1) 1 (ny - 1) u)"
    by (rule is_array2_slice2_eq [OF u]) arith+
  then have run: "set_slice2 1 (nx - 1) 1 (ny - 1) B u = Inr u'"
    by (simp add: set_slice2_def same_shape_array2 [OF _ B] u'_def rows_def)
  have len_rows: "length rows = nx - 1 - 1"
    by (simp add: rows_def slice_def lenB len)
  have len': "length u' = nx"
    unfolding u'_def using len_rows by (simp add: length_set_slice len)
  have rows_nth: "rows ! k = set_slice 1 (ny - 1) (B ! k) (u ! (k + 1))" if "k < nx - 2" for k
    using that by (simp add: rows_def slice_def lenB len)
  have outer: "u' ! i = u ! i" if "i < nx" "i < 1 \<or> nx - 1 \<le> i" for i
    unfolding u'_def using that len_rows by (intro nth_set_slice_outside) (simp_all add: len)
  have mid: "u' ! i = set_slice 1 (ny - 1) (B ! (i - 1)) (u ! i)" if "1 \<le> i" "i < nx - 1" for i
  proof -
    have "u' ! i = rows ! (i - 1)"
      unfolding u'_def using that len_rows by (intro nth_set_slice_inside) (simp_all add: len)
    also have "\<dots> = set_slice 1 (ny - 1) (B ! (i - 1)) (u ! (i - 1 + 1))"
      using that by (intro rows_nth) arith
    finally show ?thesis using that by simp
  qed
  have row_len': "length (u' ! i) = ny" if "i < nx" for i
  proof (cases "1 \<le> i \<and> i < nx - 1")
    case True
    then have "i - 1 < nx - 2" by arith
    with True that show ?thesis
      by (simp add: mid length_set_slice row rowB)
  next
    case False
    then have "i < 1 \<or> nx - 1 \<le> i" by arith
    from outer [OF that this] show ?thesis by (simp add: row that)
  qed
  have entry: "u' ! i ! j = u ! i ! j" if "i < nx" "j < ny" "\<not> interior nx ny i j" for i j
  proof (cases "1 \<le> i \<and> i < nx - 1")
    case True
    then have i1: "i - 1 < nx - 2" by arith
    from True that have j: "j < 1 \<or> ny - 1 \<le> j"
      by (auto simp: interior_def)
    have lb: "length (B ! (i - 1)) = ny - 1 - 1"
      using rowB [OF i1] by simp
    have "set_slice 1 (ny - 1) (B ! (i - 1)) (u ! i) ! j = u ! i ! j"
      using that(1,2) j by (intro nth_set_slice_outside lb) (simp_all add: row)
    with True show ?thesis by (simp add: mid)
  next
    case False
    then have "i < 1 \<or> nx - 1 \<le> i" by arith
    from outer [OF that(1) this] show ?thesis by simp
  qed
  from len' row_len' entry have "boundary_kept nx ny u u'"
    by (simp add: boundary_kept_def is_array2_nth)
  with run show ?thesis by blast
qed

lemma num_update_frame:
  assumes "is_array2 nx ny u"
  shows "\<exists>u'. num_update u = Inr u' \<and> boundary_kept nx ny u u'"
proof (cases "nx = 0")
  case True
  with assms have "u = []" by (simp add: is_array2_def)
  then have "num_update u = Inr []"
    by (simp add: num_update_def ncols_def slice2_def slice_def ew_add_def same_shape_def
        ew_mul_def ew_div_def bind_err_def set_slice2_def set_slice_def)
  with True \<open>u = []\<close> show ?thesis
    by (simp add: boundary_kept_def is_array2_def)
next
  case False
  with assms have nc: "ncols u = ny" and len: "length u = nx"
    by (simp_all add: ncols_array2 is_array2_def)
  have s1: "is_array2 (nx - 2) (ny - 2) (slice2 2 nx 1 (ny - 1) u)"
    by (rule is_array2_slice2_eq [OF assms]) arith+
  have s2: "is_array2 (nx - 2) (ny - 2) (slice2 0 (nx - 2) 1 (ny - 1) u)"
    by (rule is_array2_slice2_eq [OF assms]) arith+
  have s3: "is_array2 (nx - 2) (ny - 2) (slice2 1 (nx - 1) 2 ny u)"
    by (rule is_array2_slice2_eq [OF assms]) arith+
  have s4: "is_array2 (nx - 2) (ny - 2) (slice2 1 (nx - 1) 0 (ny - 2) u)"
    by (rule is_array2_slice2_eq [OF assms]) arith+
  from ew_add_array2 [OF s1 s2] obtain vert
    where vert: "ew_add (slice2 2 nx 1 (ny - 1) u) (slice2 0 (nx - 2) 1 (ny - 1) u) = Inr vert"
      "is_array2 (nx - 2) (ny - 2) vert" by blast
  from ew_add_array2 [OF s3 s4] obtain horiz
    where horiz: "ew_add (slice2 1 (nx - 1) 2 ny u) (slice2 1 (nx - 1) 0 (ny - 2) u) = Inr horiz"
      "is_array2 (nx - 2) (ny - 2) horiz" by blast
  from ew_add_array2 [OF is_array2_ew_mul [OF vert(2)] is_array2_ew_mul [OF horiz(2)]]
  obtain total where total: "ew_add (ew_mul vert dy2) (ew_mul horiz dx2) = Inr total"
    "is_array2 (nx - 2) (ny - 2) total" by blast
  have "num_update u = set_slice2 1 (nx - 1) 1 (ny - 1) (ew_div total (2 * (dx2 + dy2))) u"
    by (simp only: num_update_def Let_def nc len vert(1) horiz(1) total(1) bind_err_Inr)
  with set_slice2_frame [OF assms is_array2_ew_div [OF total(2)]] show ?thesis
    by simp
qed

lemma calc_boundary:
  assumes N: "1 \<le> N"
    and func: "\<And>u. is_array2 (nat N) (nat N) u \<Longrightarrow>
                 \<exists>u'. func u = Inr u' \<and> boundary_kept (nat N) (nat N) u u'"
  shows "\<exists>u. calc N Niter func = Inr u \<and> is_array2 (nat N) (nat N) u
           \<and> u ! 0 = replicate (nat N) 1
           \<and> (\<forall>i<nat N. \<forall>j<nat N. 0 < i \<and> \<not> interior (nat N) (nat N) i j \<longrightarrow> u ! i ! j = 0)"
proof -
  define n where "n = nat N"
  define u0 :: array2 where "u0 = (replicate n (replicate n 0))[0 := replicate n 1]"
  have n: "0 < n" using N by (simp add: n_def)
  have init: "bind_err (zeros N N) (\<lambda>u. fill_row u 0 1) = Inr u0"
    using N n by (simp add: zeros_def fill_row_def bind_err_def u0_def n_def)
  have arr0: "is_array2 n n u0"
    by (auto simp: is_array2_nth u0_def nth_list_update)
  have "\<exists>u. for_each (\<lambda>i. func) (py_range Niter) u0 = Inr u \<and> boundary_kept n n u0 u"
  proof (rule for_each_inv [where P = "boundary_kept n n u0"])
    fix i :: int and s
    assume s: "boundary_kept n n u0 s"
    then have "is_array2 n n s" by (simp add: boundary_kept_def)
    from func [folded n_def, OF this] obtain s' where "func s = Inr s'" "boundary_kept n n s s'"
      by blast
    with s show "\<exists>s'. func s = Inr s' \<and> boundary_kept n n u0 s'"
      by (blast intro: boundary_kept_trans)
  qed (rule boundary_kept_refl [OF arr0])
  then obtain u where u: "for_each (\<lambda>i. func) (py_range Niter) u0 = Inr u"
    and kept: "boundary_kept n n u0 u" by blast
  have run: "calc N Niter func = Inr u"
    using N n u by (simp add: calc_def zeros_def fill_row_def bind_err_def u0_def n_def)
  from kept have arr: "is_array2 n n u"
    and same: "\<And>i j. i < n \<Longrightarrow> j < n \<Longrightarrow> \<not> interior n n i j \<Longrightarrow> u ! i ! j = u0 ! i ! j"
    by (simp_all add: boundary_kept_def)
  have row0: "u ! 0 = replicate n 1"
  proof (rule nth_equalityI)
    show "length (u ! 0) = length (replicate n (1::real))"
      using arr n by (simp add: is_array2_nth)
  next
    fix j assume "j < length (u ! 0)"
    with arr n have j: "j < n" by (simp add: is_array2_nth)
    have "u ! 0 ! j = u0 ! 0 ! j"
      by (rule same [OF n j]) (simp add: interior_def)
    with n j show "u ! 0 ! j = replicate n (1::real) ! j"
      by (simp add: u0_def)
  qed
  have rest: "u ! i ! j = 0" if "i < n" "j < n" "0 < i" "\<not> interior n n i j" for i j
    using same [OF that(1,2,4)] that by (simp add: u0_def)
  from run arr row0 rest show ?thesis
    unfolding n_def by blast
qed

section \<open>Properties of the data frames\<close>















section \<open>The claims\<close>







text \<open>
  Claim C5: for \<open>n_intervals \<ge> 1\<close>, \<^verbatim>\<open>trapezoidal\<close> equals the composite trapezoidal rule.
  The loop starts at \<open>i = 0\<close>, so that \<open>func(from_a)\<close> is counted once more than the rule
  does: on \<open>[1, 5]\<close> with four intervals the function returns \<open>130\<close> and the rule is \<open>124\<close>.
\<close>

theorem trapezoidal_exceeds_rule:
  "trapezoidal some_polynomial_function 1 5 4 = Inr 130
   \<and> composite_trapezoid_rule some_polynomial_function 1 5 4 = 124"
  by (simp add: trapezoidal_def composite_trapezoid_rule_def some_polynomial_function_def
      py_range_def upt_rec)

text \<open>
  Claim C6: for \<open>n \<ge> 1\<close>, \<^verbatim>\<open>trapezodial_fast(a, b, n)\<close> returns what
  \<^verbatim>\<open>trapezoidal(some_polynomial_function, a, b, n)\<close> returns. The Cython loop adds the
  step before it evaluates, so that it sums over \<open>i = 1..n\<close> where the Python loop sums
  over \<open>i = 0..n - 1\<close>: on \<open>[1, 5]\<close> with four intervals the results are \<open>190\<close> and \<open>130\<close>.
\<close>

theorem trapezodial_fast_differs:
  "trapezodial_fast 1 5 4 = Inr 190
   \<and> trapezoidal some_polynomial_function 1 5 4 = Inr 130"
  by (simp add: trapezodial_fast_def fast_polynomial_def fast_step_def trapezoidal_def
      some_polynomial_function_def py_range_def upt_rec)

text \<open>
  Claim C7: on an \<open>N \<times> N\<close> array with \<open>N \<ge> 1\<close>, \<^verbatim>\<open>py_update\<close> and \<^verbatim>\<open>num_update\<close> return
  without an error, keep the shape, and leave every entry that is not interior as it was;
  and for \<open>N \<ge> 1\<close> and every \<^verbatim>\<open>Niter\<close>, \<^verbatim>\<open>calc(N, Niter, func)\<close> with either function
  returns an \<open>N \<times> N\<close> array whose first row is all \<open>1\<close> and whose other boundary entries
  are \<open>0\<close>.
\<close>

theorem update_frame_calc_boundary:
  "(1 \<le> N \<and> is_array2 N N u \<longrightarrow>
      (\<exists>u1 u2. py_update u = Inr u1 \<and> num_update u = Inr u2
         \<and> is_array2 N N u1 \<and> is_array2 N N u2
         \<and> (\<forall>i<N. \<forall>j<N. \<not> interior N N i j \<longrightarrow>
               u1 ! i ! j = u ! i ! j \<and> u2 ! i ! j = u ! i ! j)))
   \<and> (1 \<le> M \<and> (func = py_update \<or> func = num_update) \<longrightarrow>
      (\<exists>r. calc M Niter func = Inr r \<and> is_array2 (nat M) (nat M) r
         \<and> r ! 0 = replicate (nat M) 1
         \<and> (\<forall>i<nat M. \<forall>j<nat M. 0 < i \<and> \<not> interior (nat M) (nat M) i j \<longrightarrow> r ! i ! j = 0)))"
proof (intro conjI impI)
  assume "1 \<le> N \<and> is_array2 N N u"
  then have arr: "is_array2 N N u" ..
  from py_update_frame [OF arr] obtain u1
    where u1: "py_update u = Inr u1" "boundary_kept N N u u1" by blast
  from num_update_frame [OF arr] obtain u2
    where u2: "num_update u = Inr u2" "boundary_kept N N u u2" by blast
  from u1 u2 show "\<exists>u1 u2. py_update u = Inr u1 \<and> num_update u = Inr u2
         \<and> is_array2 N N u1 \<and> is_array2 N N u2
         \<and> (\<forall>i<N. \<forall>j<N. \<not> interior N N i j \<longrightarrow>
               u1 ! i ! j = u ! i ! j \<and> u2 ! i ! j = u ! i ! j)"
    by (simp add: boundary_kept_def)
next
  assume a: "1 \<le> M \<and> (func = py_update \<or> func = num_update)"
  then have M: "1 \<le> M" ..
  from a have "func = py_update \<or> func = num_update" ..
  then have "\<exists>u'. func v = Inr u' \<and> boundary_kept (nat M) (nat M) v u'"
    if "is_array2 (nat M) (nat M) v" for v
    using py_update_frame [OF that] num_update_frame [OF that] by blast
  then show "\<exists>r. calc M Niter func = Inr r \<and> is_array2 (nat M) (nat M) r
         \<and> r ! 0 = replicate (nat M) 1
         \<and> (\<forall>i<nat M. \<forall>j<nat M. 0 < i \<and> \<not> interior (nat M) (nat M) i j \<longrightarrow> r ! i ! j = 0)"
    by (rule calc_boundary [OF M])
qed

theorem update_frame_calc_boundary_witness:
  "is_array2 3 3 [[1, 1, 1], [2, 3, 4], [5, 6, 7]]
   \<and> (\<exists>u1 u2. py_update [[1, 1, 1], [2, 3, 4], [5, 6, 7]] = Inr u1
         \<and> num_update [[1, 1, 1], [2, 3, 4], [5, 6, 7]] = Inr u2
         \<and> u1 ! 2 ! 1 = 6 \<and> u2 ! 1 ! 0 = 2)
   \<and> (\<exists>r. calc 3 2 num_update = Inr r \<and> r ! 0 = [1, 1, 1] \<and> r ! 2 ! 1 = 0)"
proof -
  let ?u = "[[1, 1, 1], [2, 3, 4], [5, 6, 7 :: real]]"
  have arr: "is_array2 3 3 ?u"
    by (simp add: is_array2_def)
  note t = update_frame_calc_boundary [of 3 ?u 3 num_update 2]
  from t arr obtain u1 u2 where run: "py_update ?u = Inr u1" "num_update ?u = Inr u2"
    and kept: "\<forall>i<3. \<forall>j<3. \<not> interior 3 3 i j \<longrightarrow>
                 u1 ! i ! j = ?u ! i ! j \<and> u2 ! i ! j = ?u ! i ! j"
    by auto
  from kept [rule_format, of 2 1] have e1: "u1 ! 2 ! 1 = 6"
    by (simp add: interior_def)
  from kept [rule_format, of 1 0] have e2: "u2 ! 1 ! 0 = 2"
    by (simp add: interior_def)
  from t obtain r where r: "calc 3 2 num_update = Inr r" "r ! 0 = replicate (nat 3) 1"
    and zero: "\<forall>i<nat 3. \<forall>j<nat 3. 0 < i \<and> \<not> interior (nat 3) (nat 3) i j \<longrightarrow> r ! i ! j = 0"
    by auto
  from zero [rule_format, of 2 1] have e3: "r ! 2 ! 1 = 0"
    by (simp add: interior_def)
  from r(2) have e4: "r ! 0 = [1, 1, 1]"
    by (simp add: numeral_3_eq_3)
  from arr run e1 e2 r(1) e3 e4 show ?thesis by blast
qed

end
